theory Spec2Isabelle
  imports Complex_Main
begin

section \<open>Graph model\<close>

text \<open>
  The records of \<^verbatim>\<open>types.ts\<close>. JavaScript numbers are modelled as real numbers:
  rounding, overflow and values that are not numbers are outside the model.
  The field \<^verbatim>\<open>id\<close> is \<open>node_id\<close>, the two \<^verbatim>\<open>type\<close> fields are \<open>node_type\<close> and
  \<open>edge_type\<close>, and the coordinates \<^verbatim>\<open>x\<close>, \<^verbatim>\<open>y\<close> are \<open>px\<close>, \<open>py\<close>
  (the source's names are HOL constants or would capture variables). The optional fields
  \<^verbatim>\<open>vx\<close>, \<^verbatim>\<open>vy\<close> are always present in the simulation, which starts by setting
  them to zero.
\<close>

datatype NodeType = account | device | ip | merchant

datatype EdgeType = shared_device | shared_ip | transaction | shared_merchant

record GraphNode =
  node_id :: string
  node_type :: NodeType
  risk :: real
  label :: string
  px :: real
  py :: real
  vx :: real
  vy :: real

record GraphEdge =
  source :: string
  target :: string
  weight :: real
  edge_type :: EdgeType

section \<open>Force simulation\<close>

text \<open>The canvas constants of the effect in \<^verbatim>\<open>GraphView\<close>.\<close>

definition W :: real where
  "W = 700"

definition H :: real where
  "H = 440"

text \<open>
  \<^verbatim>\<open>localNodes = initNodes.map(n => ({ ...n, vx: 0, vy: 0 }))\<close> and
  \<^verbatim>\<open>edgeMap = edges\<close>: the state the simulation runs on. Nothing is checked.
\<close>

record session =
  localNodes :: "GraphNode list"
  edgeMap :: "GraphEdge list"

definition init_session :: "GraphNode list \<Rightarrow> GraphEdge list \<Rightarrow> session" where
  "init_session initNodes edges =
     \<lparr>localNodes = map (\<lambda>n. n\<lparr>vx := 0, vy := 0\<rparr>) initNodes, edgeMap = edges\<rparr>"

text \<open>\<^verbatim>\<open>Math.sqrt(dx * dx + dy * dy) || 1\<close>: a zero distance is replaced by 1.\<close>

definition dist_or_1 :: "real \<Rightarrow> real \<Rightarrow> real" where
  "dist_or_1 dx dy = (let d = sqrt (dx * dx + dy * dy) in if d = 0 then 1 else d)"

text \<open>
  The nodes are objects mutated in place. \<^verbatim>\<open>n.vx += fx; n.vy += fy\<close> and
  \<^verbatim>\<open>n.vx -= fx; n.vy -= fy\<close> on the node at index \<open>i\<close> of the array:
\<close>

definition add_velocity :: "nat \<Rightarrow> real \<Rightarrow> real \<Rightarrow> GraphNode list \<Rightarrow> GraphNode list" where
  "add_velocity i fx fy ns = ns[i := (ns ! i)\<lparr>vx := vx (ns ! i) + fx, vy := vy (ns ! i) + fy\<rparr>]"

definition sub_velocity :: "nat \<Rightarrow> real \<Rightarrow> real \<Rightarrow> GraphNode list \<Rightarrow> GraphNode list" where
  "sub_velocity i fx fy ns = ns[i := (ns ! i)\<lparr>vx := vx (ns ! i) - fx, vy := vy (ns ! i) - fy\<rparr>]"

text \<open>
  The body of the inner repulsion loop for the pair \<open>i < j\<close>: node \<open>i\<close> is written first,
  then node \<open>j\<close>.
\<close>

definition repulse_pair :: "nat \<Rightarrow> nat \<Rightarrow> GraphNode list \<Rightarrow> GraphNode list" where
  "repulse_pair i j ns =
     (let dx = px (ns ! i) - px (ns ! j);
          dy = py (ns ! i) - py (ns ! j);
          dist = dist_or_1 dx dy;
          force = 1200 / (dist * dist);
          fx = (dx / dist) * force;
          fy = (dy / dist) * force
      in sub_velocity j fx fy (add_velocity i fx fy ns))"

text \<open>
  \<^verbatim>\<open>for (i = 0; i < length; i++) for (j = i + 1; j < length; j++)\<close>; the length of
  the array never changes.
\<close>

definition repulsion :: "GraphNode list \<Rightarrow> GraphNode list" where
  "repulsion ns =
     fold (\<lambda>i acc. fold (\<lambda>j acc'. repulse_pair i j acc') [Suc i ..< length ns] acc)
       [0 ..< length ns] ns"

text \<open>
  \<^verbatim>\<open>localNodes.find(n => n.id === key)\<close>, as the index of the first node with that id
  (\<open>None\<close> for \<^verbatim>\<open>undefined\<close>). The index stands for the object reference.
\<close>

fun find_node :: "string \<Rightarrow> GraphNode list \<Rightarrow> nat option" where
  "find_node key [] = None"
| "find_node key (n # ns) =
     (if node_id n = key then Some 0
      else (case find_node key ns of None \<Rightarrow> None | Some k \<Rightarrow> Some (Suc k)))"

text \<open>
  The body of the attraction loop for one edge. An edge with an unresolved end is skipped
  (\<^verbatim>\<open>if (!s || !t) continue\<close>). When both ends are the same object, the writes to
  \<open>t\<close> read what the writes to \<open>s\<close> left.
\<close>

definition attract_edge :: "GraphEdge \<Rightarrow> GraphNode list \<Rightarrow> GraphNode list" where
  "attract_edge e ns =
     (case find_node (source e) ns of
        None \<Rightarrow> ns
      | Some s \<Rightarrow>
         (case find_node (target e) ns of
            None \<Rightarrow> ns
          | Some t \<Rightarrow>
             (let dx = px (ns ! t) - px (ns ! s);
                  dy = py (ns ! t) - py (ns ! s);
                  dist = dist_or_1 dx dy;
                  ideal = 120;
                  force = (dist - ideal) * 0.04;
                  fx = (dx / dist) * force;
                  fy = (dy / dist) * force
              in sub_velocity t fx fy (add_velocity s fx fy ns))))"

definition attraction :: "GraphEdge list \<Rightarrow> GraphNode list \<Rightarrow> GraphNode list" where
  "attraction es ns = fold attract_edge es ns"

definition gravity_node :: "GraphNode \<Rightarrow> GraphNode" where
  "gravity_node n =
     n\<lparr>vx := vx n + (W / 2 - px n) * 0.005, vy := vy n + (H / 2 - py n) * 0.005\<rparr>"

definition gravity :: "GraphNode list \<Rightarrow> GraphNode list" where
  "gravity ns = map gravity_node ns"

definition dampen_clamp_node :: "GraphNode \<Rightarrow> GraphNode" where
  "dampen_clamp_node n =
     (let vx' = vx n * 0.85;
          vy' = vy n * 0.85
      in n\<lparr>vx := vx', vy := vy',
           px := max 20 (min (W - 20) (px n + vx')),
           py := max 20 (min (H - 20) (py n + vy'))\<rparr>)"

definition dampen_clamp :: "GraphNode list \<Rightarrow> GraphNode list" where
  "dampen_clamp ns = map dampen_clamp_node ns"

text \<open>One call of \<^verbatim>\<open>tick\<close>: the four loops in the order of the source.\<close>

definition tick :: "GraphEdge list \<Rightarrow> GraphNode list \<Rightarrow> GraphNode list" where
  "tick es ns = dampen_clamp (gravity (attraction es (repulsion ns)))"

definition tick_session :: "session \<Rightarrow> session" where
  "tick_session s = s\<lparr>localNodes := tick (edgeMap s) (localNodes s)\<rparr>"

section \<open>Scheduler\<close>

text \<open>
  The effect of \<^verbatim>\<open>GraphView\<close> and the part of the browser it talks to. The browser keeps
  the list of animation frame callbacks that were requested and not yet run or cancelled,
  each under the handle \<^verbatim>\<open>requestAnimationFrame\<close> returned for it; handles are issued
  in increasing order. Every callback this component requests is \<^verbatim>\<open>tick\<close>, so the list holds
  only the handles. \<open>effect\<close> is the state of the closure, \<open>nodes\<close> is the React state
  that is drawn, and \<open>stop_pending\<close> says that the 3 s timeout \<^verbatim>\<open>stop\<close> is still set.
\<close>

record GraphView =
  effect :: session
  nodes :: "GraphNode list"
  animRef :: nat
  frame_callbacks :: "nat list"
  next_frame_id :: nat
  stop_pending :: bool

text \<open>\<^verbatim>\<open>animRef.current = requestAnimationFrame(tick)\<close>\<close>

definition requestAnimationFrame_tick :: "GraphView \<Rightarrow> GraphView" where
  "requestAnimationFrame_tick v =
     v\<lparr>animRef := next_frame_id v,
       frame_callbacks := frame_callbacks v @ [next_frame_id v],
       next_frame_id := Suc (next_frame_id v)\<rparr>"

text \<open>\<^verbatim>\<open>cancelAnimationFrame(animRef.current)\<close>\<close>

definition cancelAnimationFrame_animRef :: "GraphView \<Rightarrow> GraphView" where
  "cancelAnimationFrame_animRef v =
     v\<lparr>frame_callbacks := removeAll (animRef v) (frame_callbacks v)\<rparr>"

text \<open>
  The body of the effect, run once when the component is mounted: the first frame is
  requested and the timeout is set. \<open>h\<close> is the next handle of the browser.
\<close>

definition mount :: "GraphNode list \<Rightarrow> GraphEdge list \<Rightarrow> nat \<Rightarrow> GraphView" where
  "mount initNodes edges h =
     (requestAnimationFrame_tick
        \<lparr>effect = init_session initNodes edges, nodes = initNodes, animRef = 0,
         frame_callbacks = [], next_frame_id = h, stop_pending = False\<rparr>)
     \<lparr>stop_pending := True\<rparr>"

text \<open>
  The callback as the browser runs it: the four loops, then
  \<^verbatim>\<open>setNodes([...localNodes])\<close>, then the request for the next frame.
\<close>

definition tick_callback :: "GraphView \<Rightarrow> GraphView" where
  "tick_callback v =
     requestAnimationFrame_tick
       (v\<lparr>effect := tick_session (effect v),
          nodes := localNodes (tick_session (effect v))\<rparr>)"

text \<open>
  What can happen to a mounted view: the browser renders a frame and runs the callbacks
  it held when the frame began; the timeout fires, if it is still set; the component is
  unmounted and the cleanup of the effect runs.
\<close>

datatype event = Frame | Timeout | Unmount

fun step :: "GraphView \<Rightarrow> event \<Rightarrow> GraphView" where
  "step v Frame = fold (\<lambda>h. tick_callback) (frame_callbacks v) (v\<lparr>frame_callbacks := []\<rparr>)"
| "step v Timeout =
     (if stop_pending v then (cancelAnimationFrame_animRef v)\<lparr>stop_pending := False\<rparr> else v)"
| "step v Unmount = (cancelAnimationFrame_animRef v)\<lparr>stop_pending := False\<rparr>"

text \<open>
  The invariant of the scheduler: the only callback the browser can hold is the one whose
  handle is in \<^verbatim>\<open>animRef\<close>, and it holds none once the timeout is no longer set. A view
  is cancelled when no callback and no timeout are left.
\<close>

definition scheduled :: "GraphView \<Rightarrow> bool" where
  "scheduled v \<longleftrightarrow>
     (frame_callbacks v = [] \<or> frame_callbacks v = [animRef v])
       \<and> (stop_pending v \<or> frame_callbacks v = [])"

definition cancelled :: "GraphView \<Rightarrow> bool" where
  "cancelled v \<longleftrightarrow> frame_callbacks v = [] \<and> \<not> stop_pending v"

section \<open>Selection and dimming\<close>

text \<open>
  \<^verbatim>\<open>selNeighbors\<close>: the set of both ends of every edge that has the selected node at one
  end; empty without a selection.
\<close>

definition selNeighbors :: "GraphNode option \<Rightarrow> GraphEdge list \<Rightarrow> string set" where
  "selNeighbors selected edges =
     (case selected of
        None \<Rightarrow> {}
      | Some sel \<Rightarrow>
          set (concat (map (\<lambda>e. [source e, target e])
            (filter (\<lambda>e. source e = node_id sel \<or> target e = node_id sel) edges))))"

text \<open>
  \<^verbatim>\<open>nodeMap = Object.fromEntries(nodes.map(n => [n.id, n]))\<close> is read only through the
  guard \<^verbatim>\<open>if (!s || !t) return null\<close>. \<^verbatim>\<open>nodeMap[k]\<close> is a node when \<open>k\<close> is the id of
  one, a function or object when \<open>k\<close> names a property every object inherits, and
  \<^verbatim>\<open>undefined\<close> otherwise; only the last is falsy.
\<close>

definition Object_prototype :: "string list" where
  "Object_prototype =
     [''constructor'', ''hasOwnProperty'', ''isPrototypeOf'', ''propertyIsEnumerable'',
      ''toLocaleString'', ''toString'', ''valueOf'', ''__proto__'', ''__defineGetter__'',
      ''__defineSetter__'', ''__lookupGetter__'', ''__lookupSetter__'']"

definition nodeMap_truthy :: "GraphNode list \<Rightarrow> string \<Rightarrow> bool" where
  "nodeMap_truthy ns k \<longleftrightarrow> k \<in> set (map node_id ns) \<or> k \<in> set Object_prototype"

text \<open>
  The value of the expression
  \<^verbatim>\<open>selected && !selNeighbors.has(e.source) && !selNeighbors.has(e.target)\<close>, read as a
  truth value. The renderer evaluates it only for an edge that passed the guard.
\<close>

definition dim_expr :: "GraphNode option \<Rightarrow> GraphEdge list \<Rightarrow> GraphEdge \<Rightarrow> bool" where
  "dim_expr selected edges e =
     (selected \<noteq> None \<and> source e \<notin> selNeighbors selected edges
        \<and> target e \<notin> selNeighbors selected edges)"

text \<open>
  The callback of \<^verbatim>\<open>edges.map\<close>, as far as \<^verbatim>\<open>dim\<close> goes: \<open>None\<close> when the callback
  returns \<^verbatim>\<open>null\<close> and no line is drawn, otherwise the \<^verbatim>\<open>dim\<close> of the line (opacity 0.1
  when it holds, 0.9 when not).
\<close>

definition dim_edge ::
  "GraphNode list \<Rightarrow> GraphNode option \<Rightarrow> GraphEdge list \<Rightarrow> GraphEdge \<Rightarrow> bool option" where
  "dim_edge ns selected edges e =
     (if \<not> nodeMap_truthy ns (source e) \<or> \<not> nodeMap_truthy ns (target e) then None
      else Some (dim_expr selected edges e))"

text \<open>\<^verbatim>\<open>dimmed\<close> of a node, read as a truth value.\<close>

definition dimmed :: "GraphNode option \<Rightarrow> GraphEdge list \<Rightarrow> GraphNode \<Rightarrow> bool" where
  "dimmed selected edges n =
     (case selected of
        None \<Rightarrow> False
      | Some sel \<Rightarrow> node_id n \<notin> selNeighbors selected edges \<and> node_id sel \<noteq> node_id n)"

text \<open>\<^verbatim>\<open>isSelected = selected?.id === n.id\<close> and the click handler of a node.\<close>

definition isSelected :: "GraphNode option \<Rightarrow> GraphNode \<Rightarrow> bool" where
  "isSelected selected n =
     (case selected of None \<Rightarrow> False | Some sel \<Rightarrow> node_id sel = node_id n)"

definition onClick :: "GraphNode option \<Rightarrow> GraphNode \<Rightarrow> GraphNode option" where
  "onClick selected n = (if isSelected selected n then None else Some n)"

text \<open>\<^verbatim>\<open>strokeWidth={e.weight}\<close>.\<close>

definition strokeWidth :: "GraphEdge \<Rightarrow> real" where
  "strokeWidth e = weight e"

section \<open>Notions used in the statements\<close>

text \<open>
  The neighbor set in the words of the specification: the ids adjacent to a node through
  any edge, matched as source or as target.
\<close>

definition neighbors :: "string \<Rightarrow> GraphEdge list \<Rightarrow> string set" where
  "neighbors k edges =
     set (map target (filter (\<lambda>e. source e = k) edges))
       \<union> set (map source (filter (\<lambda>e. target e = k) edges))"

text \<open>
  What the simulation is said to depend on: of a node its id, position and velocity, and
  of an edge its two ends.
\<close>

definition phys :: "GraphNode \<Rightarrow> string \<times> real \<times> real \<times> real \<times> real" where
  "phys n = (node_id n, px n, py n, vx n, vy n)"

definition ends :: "GraphEdge \<Rightarrow> string \<times> string" where
  "ends e = (source e, target e)"

text \<open>
  The distance of two nodes as both force loops compute it, before a zero is replaced.
\<close>

definition node_dist :: "GraphNode \<Rightarrow> GraphNode \<Rightarrow> real" where
  "node_dist a b =
     (let dx = px b - px a; dy = py b - py a in sqrt (dx * dx + dy * dy))"





section \<open>Sample data\<close>

text \<open>A node at rest at a given place, and an edge of a given weight.\<close>

definition mk_node :: "string \<Rightarrow> real \<Rightarrow> real \<Rightarrow> GraphNode" where
  "mk_node k a b =
     \<lparr>node_id = k, node_type = account, risk = 0, label = [], px = a, py = b, vx = 0, vy = 0\<rparr>"

definition mk_edge :: "string \<Rightarrow> string \<Rightarrow> real \<Rightarrow> GraphEdge" where
  "mk_edge a b w = \<lparr>source = a, target = b, weight = w, edge_type = shared_ip\<rparr>"

section \<open>Basic facts about the phases\<close>


lemma repulsion_1: "repulsion [a] = [a]"
  by (simp add: repulsion_def)

lemma repulsion_2: "repulsion [a, b] = repulse_pair 0 1 [a, b]"
  by (simp add: repulsion_def)

lemma find_node_less: "find_node k ns = Some i \<Longrightarrow> i < length ns"
  by (induction ns arbitrary: i) (auto split: if_splits option.splits)

lemma find_node_ids: "map node_id ns = map node_id ms \<Longrightarrow> find_node k ns = find_node k ms"
proof (induction ns arbitrary: ms)
  case Nil
  then show ?case by simp
next
  case (Cons n ns)
  then obtain m ms' where ms: "ms = m # ms'" by (cases ms) auto
  with Cons.prems have "node_id n = node_id m" "map node_id ns = map node_id ms'" by simp_all
  with Cons.IH[of ms'] ms show ?case by simp
qed

lemma ids_velocity_update:
  "map node_id (ns[i := (ns ! i)\<lparr>vx := a, vy := b\<rparr>]) = map node_id ns"
  by (cases "i < length ns") (simp_all add: map_update list_update_same_conv list_update_beyond)

lemma ids_add_velocity: "map node_id (add_velocity i fx fy ns) = map node_id ns"
  unfolding add_velocity_def by (rule ids_velocity_update)

lemma ids_sub_velocity: "map node_id (sub_velocity i fx fy ns) = map node_id ns"
  unfolding sub_velocity_def by (rule ids_velocity_update)

lemma ids_repulse_pair: "map node_id (repulse_pair i j ns) = map node_id ns"
  by (simp add: repulse_pair_def Let_def ids_add_velocity ids_sub_velocity)

lemma ids_attract_edge: "map node_id (attract_edge e ns) = map node_id ns"
  by (simp add: attract_edge_def Let_def ids_add_velocity ids_sub_velocity split: option.splits)

lemma ids_attraction: "map node_id (attraction es ns) = map node_id ns"
  unfolding attraction_def
  by (induction es arbitrary: ns) (simp_all add: ids_attract_edge)

lemma ids_fold_repulse:
  "map node_id (fold (\<lambda>j acc. repulse_pair i j acc) js ns) = map node_id ns"
  by (induction js arbitrary: ns) (simp_all add: ids_repulse_pair)

lemma ids_repulsion_gen:
  "map node_id
     (fold (\<lambda>i acc. fold (\<lambda>j acc'. repulse_pair i j acc') [Suc i ..< m] acc) is ns)
   = map node_id ns"
  by (induction "is" arbitrary: ns) (simp_all add: ids_fold_repulse)

lemma ids_repulsion: "map node_id (repulsion ns) = map node_id ns"
  by (simp add: repulsion_def ids_repulsion_gen)

lemma length_add_velocity: "length (add_velocity i fx fy ns) = length ns"
  by (simp add: add_velocity_def)

lemma length_sub_velocity: "length (sub_velocity i fx fy ns) = length ns"
  by (simp add: sub_velocity_def)

lemma length_repulse_pair: "length (repulse_pair i j ns) = length ns"
  by (simp add: repulse_pair_def Let_def length_add_velocity length_sub_velocity)

lemma length_attract_edge: "length (attract_edge e ns) = length ns"
  by (simp add: attract_edge_def Let_def length_add_velocity length_sub_velocity
      split: option.splits)

lemma attract_edge_unresolved:
  "find_node (source e) ns = None \<or> find_node (target e) ns = None \<Longrightarrow> attract_edge e ns = ns"
  by (auto simp: attract_edge_def split: option.splits)

lemma attract_edge_weight: "attract_edge (e\<lparr>weight := w\<rparr>) ns = attract_edge e ns"
  by (simp add: attract_edge_def cong: option.case_cong)

lemma selNeighbors_Some:
  "selNeighbors (Some n) es =
     (if neighbors (node_id n) es = {} then {}
      else insert (node_id n) (neighbors (node_id n) es))"
  by (auto simp: selNeighbors_def neighbors_def filter_empty_conv)

section \<open>Unresolved edge ends\<close>

text \<open>
  C1 (as the code has it): nothing rejects an edge whose source or target names no node.
  The session is built with the edge in it, and every tick skips the edge: the tick over
  an edge list containing such an edge equals the tick over the list without it.
\<close>

theorem unresolved_edge_skipped:
  assumes "find_node (source e) ns = None \<or> find_node (target e) ns = None"
  shows "tick (es1 @ e # es2) ns = tick (es1 @ es2) ns"
proof -
  let ?ms = "attraction es1 (repulsion ns)"
  have "map node_id ?ms = map node_id ns"
    by (simp add: ids_attraction ids_repulsion)
  then have "find_node k ?ms = find_node k ns" for k
    by (rule find_node_ids)
  with assms have "attract_edge e ?ms = ?ms"
    by (simp add: attract_edge_unresolved)
  then have "attraction (es1 @ e # es2) (repulsion ns) = attraction (es1 @ es2) (repulsion ns)"
    by (simp add: attraction_def)
  then show ?thesis by (simp add: tick_def)
qed

theorem unresolved_edge_skipped_witness:
  "find_node (source (mk_edge ''D-3'' ''A1'' 1.5))
     [mk_node ''D0'' 100 100, mk_node ''A1'' 300 100] = None
   \<and> tick ([mk_edge ''D0'' ''A1'' 2] @ mk_edge ''D-3'' ''A1'' 1.5 # [])
        [mk_node ''D0'' 100 100, mk_node ''A1'' 300 100]
     = tick ([mk_edge ''D0'' ''A1'' 2] @ []) [mk_node ''D0'' 100 100, mk_node ''A1'' 300 100]"
  using unresolved_edge_skipped[of "mk_edge ''D-3'' ''A1'' 1.5"
      "[mk_node ''D0'' 100 100, mk_node ''A1'' 300 100]" "[mk_edge ''D0'' ''A1'' 2]" "[]"]
  by (simp add: mk_node_def mk_edge_def)

text \<open>
  C1 fails as stated: a session with the edge \<open>D-3 \<rightarrow> A1\<close>, whose source is no node, is
  built with the edge kept, its tick runs and moves the nodes, and the result is the tick
  of the graph without the edge.
\<close>

theorem unresolved_edge_counterexample:
  "edgeMap (init_session [mk_node ''D0'' 100 100, mk_node ''A1'' 300 100]
      [mk_edge ''D-3'' ''A1'' 1.5]) = [mk_edge ''D-3'' ''A1'' 1.5]
   \<and> localNodes (tick_session (init_session [mk_node ''D0'' 100 100, mk_node ''A1'' 300 100]
        [mk_edge ''D-3'' ''A1'' 1.5]))
     = tick [] [mk_node ''D0'' 100 100, mk_node ''A1'' 300 100]
   \<and> map (\<lambda>n. (px n, py n)) (tick [] [mk_node ''D0'' 100 100, mk_node ''A1'' 300 100])
     = [(101037/1000, 10051/100), (300238/1000, 10051/100)]"
  by (simp add: init_session_def tick_session_def tick_def repulsion_2 repulse_pair_def
      add_velocity_def sub_velocity_def dist_or_1_def attraction_def attract_edge_def
      gravity_def gravity_node_def dampen_clamp_def dampen_clamp_node_def mk_node_def mk_edge_def W_def H_def Let_def)

section \<open>Coincident nodes\<close>

text \<open>
  C2 (as the code has it): for two nodes of the graph at the same coordinates the distance
  of the pair is replaced by 1, so nothing is divided by zero, and the force between them
  is zero: the repulsion step of the pair changes neither node.
\<close>

theorem coincident_pair_unchanged:
  assumes "i < length ns" and "j < length ns"
    and "px (ns ! i) = px (ns ! j)" and "py (ns ! i) = py (ns ! j)"
  shows "dist_or_1 (px (ns ! i) - px (ns ! j)) (py (ns ! i) - py (ns ! j)) = 1
    \<and> repulse_pair i j ns = ns"
  using assms by (simp add: repulse_pair_def add_velocity_def sub_velocity_def dist_or_1_def)

theorem coincident_pair_unchanged_witness:
  "1 < length [mk_node ''A'' 100 100, mk_node ''B'' 100 100]
   \<and> px ([mk_node ''A'' 100 100, mk_node ''B'' 100 100] ! 0)
     = px ([mk_node ''A'' 100 100, mk_node ''B'' 100 100] ! 1)
   \<and> repulse_pair 0 1 [mk_node ''A'' 100 100, mk_node ''B'' 100 100]
     = [mk_node ''A'' 100 100, mk_node ''B'' 100 100]"
  using coincident_pair_unchanged[where ns = "[mk_node ''A'' 100 100, mk_node ''B'' 100 100]"
      and i = 0 and j = 1]
  by (simp add: mk_node_def)

text \<open>
  C2 fails as stated: two nodes at rest at (100, 100), with no edges, are at the same
  place after one tick.
\<close>

theorem coincident_nodes_counterexample:
  "map (\<lambda>n. (px n, py n)) (tick [] [mk_node ''A'' 100 100, mk_node ''B'' 100 100])
     = [(1617/16, 10051/100), (1617/16, 10051/100)]"
  by (simp add: tick_def repulsion_2 repulse_pair_def add_velocity_def sub_velocity_def
      dist_or_1_def attraction_def gravity_def gravity_node_def dampen_clamp_def
      dampen_clamp_node_def mk_node_def W_def H_def)

section \<open>Neighbor set and dimming\<close>

text \<open>
  C5 (as the code has it): for a selected node whose edges connect it to exactly the two
  ids \<open>a\<close> and \<open>b\<close>, through any number of edges in either direction, the computed set holds
  \<open>a\<close>, \<open>b\<close> and the id of the selected node itself, each once.
\<close>

theorem selNeighbors_multi_edge:
  assumes "neighbors (node_id n) es = {a, b}"
  shows "selNeighbors (Some n) es = {node_id n, a, b}"
  using assms by (simp add: selNeighbors_Some)

theorem selNeighbors_multi_edge_witness:
  "neighbors (node_id (mk_node ''N'' 0 0))
     [mk_edge ''N'' ''A'' 1, mk_edge ''A'' ''N'' 2, mk_edge ''B'' ''N'' 1, mk_edge ''A'' ''B'' 1]
     = {''A'', ''B''}
   \<and> selNeighbors (Some (mk_node ''N'' 0 0))
       [mk_edge ''N'' ''A'' 1, mk_edge ''A'' ''N'' 2, mk_edge ''B'' ''N'' 1, mk_edge ''A'' ''B'' 1]
     = {''N'', ''A'', ''B''}"
  using selNeighbors_multi_edge[of "mk_node ''N'' 0 0"
      "[mk_edge ''N'' ''A'' 1, mk_edge ''A'' ''N'' 2, mk_edge ''B'' ''N'' 1, mk_edge ''A'' ''B'' 1]"
      "''A''" "''B''"]
  by (simp add: neighbors_def mk_node_def mk_edge_def insert_commute)

text \<open>
  C5 fails as stated: with the edges \<open>N \<rightarrow> A\<close>, \<open>A \<rightarrow> N\<close> and \<open>B \<rightarrow> N\<close> the computed set
  is not \<open>{A, B}\<close>, because it contains \<open>N\<close>.
\<close>

theorem selNeighbors_counterexample:
  "selNeighbors (Some (mk_node ''N'' 0 0))
     [mk_edge ''N'' ''A'' 1, mk_edge ''A'' ''N'' 2, mk_edge ''B'' ''N'' 1] \<noteq> {''A'', ''B''}"
proof
  assume eq: "selNeighbors (Some (mk_node ''N'' 0 0))
     [mk_edge ''N'' ''A'' 1, mk_edge ''A'' ''N'' 2, mk_edge ''B'' ''N'' 1] = {''A'', ''B''}"
  have "''N'' \<in> selNeighbors (Some (mk_node ''N'' 0 0))
     [mk_edge ''N'' ''A'' 1, mk_edge ''A'' ''N'' 2, mk_edge ''B'' ''N'' 1]"
    by (simp add: selNeighbors_def mk_node_def mk_edge_def)
  with eq show False by simp
qed

text \<open>
  C6 (as the code has it): while a node is selected, a line is drawn for an edge of the
  graph only if both its ends pass the guard of the renderer, and the line is dimmed
  exactly when neither end is the selected node or a neighbor of it. An edge with an end
  that does not pass the guard has no line and no \<^verbatim>\<open>dim\<close>.
\<close>

theorem dim_edge_iff:
  assumes "e \<in> set es"
  shows "dim_edge ns (Some n) es e =
    (if nodeMap_truthy ns (source e) \<and> nodeMap_truthy ns (target e)
     then Some (source e \<notin> insert (node_id n) (neighbors (node_id n) es)
        \<and> target e \<notin> insert (node_id n) (neighbors (node_id n) es))
     else None)"
  using assms unfolding dim_edge_def dim_expr_def selNeighbors_Some
  by (auto simp: neighbors_def)

theorem dim_edge_iff_witness:
  "mk_edge ''C'' ''D'' 1 \<in> set [mk_edge ''N'' ''A'' 1, mk_edge ''C'' ''D'' 1]
   \<and> dim_edge [mk_node ''N'' 30 30, mk_node ''A'' 40 40, mk_node ''C'' 50 50, mk_node ''D'' 60 60]
       (Some (mk_node ''N'' 30 30)) [mk_edge ''N'' ''A'' 1, mk_edge ''C'' ''D'' 1]
       (mk_edge ''C'' ''D'' 1) = Some True
   \<and> dim_edge [mk_node ''N'' 30 30, mk_node ''A'' 40 40, mk_node ''C'' 50 50, mk_node ''D'' 60 60]
       (Some (mk_node ''N'' 30 30)) [mk_edge ''N'' ''A'' 1, mk_edge ''D-3'' ''D'' 1]
       (mk_edge ''D-3'' ''D'' 1) = None"
  using dim_edge_iff[of "mk_edge ''C'' ''D'' 1" "[mk_edge ''N'' ''A'' 1, mk_edge ''C'' ''D'' 1]"
      "[mk_node ''N'' 30 30, mk_node ''A'' 40 40, mk_node ''C'' 50 50, mk_node ''D'' 60 60]"
      "mk_node ''N'' 30 30"]
    dim_edge_iff[of "mk_edge ''D-3'' ''D'' 1" "[mk_edge ''N'' ''A'' 1, mk_edge ''D-3'' ''D'' 1]"
      "[mk_node ''N'' 30 30, mk_node ''A'' 40 40, mk_node ''C'' 50 50, mk_node ''D'' 60 60]"
      "mk_node ''N'' 30 30"]
  by (simp add: neighbors_def nodeMap_truthy_def Object_prototype_def mk_node_def mk_edge_def)

text \<open>
  C6 fails as stated: with \<open>N\<close> selected, the nodes \<open>N\<close>, \<open>A\<close>, \<open>B\<close> and the edges
  \<open>N \<rightarrow> A\<close>, \<open>N \<rightarrow> B\<close>, \<open>A \<rightarrow> B\<close>, the edge \<open>A \<rightarrow> B\<close> is drawn, does not touch \<open>N\<close> and
  is not dimmed.
\<close>

theorem dim_edge_counterexample:
  "dim_edge [mk_node ''N'' 30 30, mk_node ''A'' 40 40, mk_node ''B'' 50 50]
      (Some (mk_node ''N'' 30 30))
      [mk_edge ''N'' ''A'' 1, mk_edge ''N'' ''B'' 1, mk_edge ''A'' ''B'' 1]
      (mk_edge ''A'' ''B'' 1) = Some False
   \<and> source (mk_edge ''A'' ''B'' 1) \<noteq> node_id (mk_node ''N'' 30 30)
   \<and> target (mk_edge ''A'' ''B'' 1) \<noteq> node_id (mk_node ''N'' 30 30)"
  by (simp add: dim_edge_def dim_expr_def nodeMap_truthy_def selNeighbors_def mk_node_def
      mk_edge_def)

section \<open>Edge weight\<close>

text \<open>
  C7 (as the code has it): the weight of an edge plays no part in the forces. Changing
  the weight of an edge changes neither its attraction step nor the tick; the weight is
  the stroke width of the drawn line and nothing else.
\<close>

theorem weight_not_in_force:
  "attract_edge (e\<lparr>weight := w\<rparr>) ns = attract_edge e ns
   \<and> tick (map (\<lambda>e. e\<lparr>weight := f e\<rparr>) es) ns = tick es ns
   \<and> strokeWidth (e\<lparr>weight := w\<rparr>) = w"
proof -
  have "fold attract_edge (map (\<lambda>e. e\<lparr>weight := f e\<rparr>) es) xs = fold attract_edge es xs" for xs
    by (induction es arbitrary: xs) (simp_all add: attract_edge_weight)
  then show ?thesis
    by (simp add: tick_def attraction_def attract_edge_weight strokeWidth_def)
qed

theorem weight_not_in_force_witness:
  "attract_edge (mk_edge ''D0'' ''A1'' 2) [mk_node ''D0'' 100 100, mk_node ''A1'' 300 100]
     = attract_edge (mk_edge ''D0'' ''A1'' 1) [mk_node ''D0'' 100 100, mk_node ''A1'' 300 100]"
  using weight_not_in_force[where e = "mk_edge ''D0'' ''A1'' 1" and w = 2
      and ns = "[mk_node ''D0'' 100 100, mk_node ''A1'' 300 100]"]
  by (simp add: mk_edge_def)

text \<open>
  C7 fails as stated: two edges between the same nodes, one of weight 1 and one of weight
  2, add the same velocity to the two ends.
\<close>

theorem weight_counterexample:
  "map (\<lambda>n. (vx n, vy n))
      (attraction [mk_edge ''D0'' ''A1'' 1] [mk_node ''D0'' 100 100, mk_node ''A1'' 300 100])
     = [(16/5, 0), (-16/5, 0)]
   \<and> map (\<lambda>n. (vx n, vy n))
      (attraction [mk_edge ''D0'' ''A1'' 2] [mk_node ''D0'' 100 100, mk_node ''A1'' 300 100])
     = [(16/5, 0), (-16/5, 0)]"
  by (simp add: attraction_def attract_edge_def add_velocity_def sub_velocity_def mk_edge_def
      mk_node_def dist_or_1_def Let_def)

section \<open>Attraction along an edge\<close>






































text \<open>The two ticks at two nodes 200 apart, and at two nodes 119 apart.\<close>

lemma node_dist_level: "py a = py b \<Longrightarrow> node_dist a b = \<bar>px b - px a\<bar>"
  by (simp add: node_dist_def Let_def)

lemmas tick_eval = tick_def repulsion_2 repulse_pair_def add_velocity_def sub_velocity_def
  dist_or_1_def attraction_def attract_edge_def gravity_def gravity_node_def
  dampen_clamp_def dampen_clamp_node_def mk_node_def mk_edge_def W_def H_def Let_def







text \<open>
  Why the distances are compared only when the ends have not passed each other, and why
  nothing is strict. Two ends 200 apart that move fast toward each other end 1.151 apart
  without the edge and, having passed each other, 4.289 apart with it. Two ends 50 apart
  that pass each other without the edge end 2.9465 apart without it and 1.8135 apart with
  it. Two ends 200 apart that move fast away from each other are clamped to the two
  margins with the edge and without it.
\<close>

lemma passed_with_edge:
  "node_dist ((mk_node ''S'' 100 100)\<lparr>vx := 1165/10\<rparr>)
      ((mk_node ''T'' 300 100)\<lparr>vx := - 1165/10\<rparr>) = 200
   \<and> map (\<lambda>n. (px n, py n)) (tick [mk_edge ''S'' ''T'' 1]
        [(mk_node ''S'' 100 100)\<lparr>vx := 1165/10\<rparr>, (mk_node ''T'' 300 100)\<lparr>vx := - 1165/10\<rparr>])
     = [(202782/1000, 10051/100), (198493/1000, 10051/100)]
   \<and> map (\<lambda>n. (px n, py n)) (tick []
        [(mk_node ''S'' 100 100)\<lparr>vx := 1165/10\<rparr>, (mk_node ''T'' 300 100)\<lparr>vx := - 1165/10\<rparr>])
     = [(200062/1000, 10051/100), (201213/1000, 10051/100)]
   \<and> node_dist
        (tick [mk_edge ''S'' ''T'' 1]
          [(mk_node ''S'' 100 100)\<lparr>vx := 1165/10\<rparr>, (mk_node ''T'' 300 100)\<lparr>vx := - 1165/10\<rparr>] ! 0)
        (tick [mk_edge ''S'' ''T'' 1]
          [(mk_node ''S'' 100 100)\<lparr>vx := 1165/10\<rparr>, (mk_node ''T'' 300 100)\<lparr>vx := - 1165/10\<rparr>] ! 1)
     = 4289/1000
   \<and> node_dist
        (tick [] [(mk_node ''S'' 100 100)\<lparr>vx := 1165/10\<rparr>,
           (mk_node ''T'' 300 100)\<lparr>vx := - 1165/10\<rparr>] ! 0)
        (tick [] [(mk_node ''S'' 100 100)\<lparr>vx := 1165/10\<rparr>,
           (mk_node ''T'' 300 100)\<lparr>vx := - 1165/10\<rparr>] ! 1)
     = 1151/1000"
  by (simp add: tick_eval node_dist_level)

lemma passed_without_edge:
  "node_dist ((mk_node ''S'' 100 100)\<lparr>vx := 315/10\<rparr>)
      ((mk_node ''T'' 150 100)\<lparr>vx := - 315/10\<rparr>) = 50
   \<and> map (\<lambda>n. (px n, py n)) (tick [mk_edge ''S'' ''T'' 1]
        [(mk_node ''S'' 100 100)\<lparr>vx := 315/10\<rparr>, (mk_node ''T'' 150 100)\<lparr>vx := - 315/10\<rparr>])
     = [(1250495/10000, 10051/100), (126863/1000, 10051/100)]
   \<and> map (\<lambda>n. (px n, py n)) (tick []
        [(mk_node ''S'' 100 100)\<lparr>vx := 315/10\<rparr>, (mk_node ''T'' 150 100)\<lparr>vx := - 315/10\<rparr>])
     = [(1274295/10000, 10051/100), (124483/1000, 10051/100)]
   \<and> node_dist
        (tick [mk_edge ''S'' ''T'' 1]
          [(mk_node ''S'' 100 100)\<lparr>vx := 315/10\<rparr>, (mk_node ''T'' 150 100)\<lparr>vx := - 315/10\<rparr>] ! 0)
        (tick [mk_edge ''S'' ''T'' 1]
          [(mk_node ''S'' 100 100)\<lparr>vx := 315/10\<rparr>, (mk_node ''T'' 150 100)\<lparr>vx := - 315/10\<rparr>] ! 1)
     = 18135/10000
   \<and> node_dist
        (tick [] [(mk_node ''S'' 100 100)\<lparr>vx := 315/10\<rparr>,
           (mk_node ''T'' 150 100)\<lparr>vx := - 315/10\<rparr>] ! 0)
        (tick [] [(mk_node ''S'' 100 100)\<lparr>vx := 315/10\<rparr>,
           (mk_node ''T'' 150 100)\<lparr>vx := - 315/10\<rparr>] ! 1)
     = 29465/10000"
  by (simp add: tick_eval node_dist_level)

lemma clamped_with_and_without_edge:
  "node_dist ((mk_node ''S'' 100 100)\<lparr>vx := - 1000\<rparr>)
      ((mk_node ''T'' 300 100)\<lparr>vx := 1000\<rparr>) = 200
   \<and> map (\<lambda>n. (px n, py n)) (tick [mk_edge ''S'' ''T'' 1]
        [(mk_node ''S'' 100 100)\<lparr>vx := - 1000\<rparr>, (mk_node ''T'' 300 100)\<lparr>vx := 1000\<rparr>])
     = [(20, 10051/100), (680, 10051/100)]
   \<and> map (\<lambda>n. (px n, py n)) (tick []
        [(mk_node ''S'' 100 100)\<lparr>vx := - 1000\<rparr>, (mk_node ''T'' 300 100)\<lparr>vx := 1000\<rparr>])
     = [(20, 10051/100), (680, 10051/100)]"
  by (simp add: tick_eval node_dist_level)

section \<open>Determinism\<close>

lemma phys_eq_iff:
  "phys a = phys b \<longleftrightarrow>
     node_id a = node_id b \<and> px a = px b \<and> py a = py b \<and> vx a = vx b \<and> vy a = vy b"
  by (simp add: phys_def)

lemma sim_length: "map phys ns1 = map phys ns2 \<Longrightarrow> length ns1 = length ns2"
  by (rule map_eq_imp_length_eq)

lemma sim_nth:
  assumes "map phys ns1 = map phys ns2" and "i < length ns1"
  shows "phys (ns1 ! i) = phys (ns2 ! i)"
proof -
  have i2: "i < length ns2" using sim_length[OF assms(1)] assms(2) by simp
  have "map phys ns1 ! i = map phys ns2 ! i" by (simp only: assms(1))
  then show ?thesis by (simp only: nth_map[OF assms(2)] nth_map[OF i2])
qed

lemma sim_ids: "map phys ns1 = map phys ns2 \<Longrightarrow> map node_id ns1 = map node_id ns2"
proof -
  assume "map phys ns1 = map phys ns2"
  then have "map fst (map phys ns1) = map fst (map phys ns2)" by simp
  then show ?thesis by (simp add: phys_def comp_def)
qed

lemma sim_update:
  assumes "map phys ns1 = map phys ns2" and "i < length ns1"
  shows "map phys (ns1[i := (ns1 ! i)\<lparr>vx := f (vx (ns1 ! i)), vy := g (vy (ns1 ! i))\<rparr>])
       = map phys (ns2[i := (ns2 ! i)\<lparr>vx := f (vx (ns2 ! i)), vy := g (vy (ns2 ! i))\<rparr>])"
proof -
  from sim_nth[OF assms]
  have "phys ((ns1 ! i)\<lparr>vx := f (vx (ns1 ! i)), vy := g (vy (ns1 ! i))\<rparr>)
      = phys ((ns2 ! i)\<lparr>vx := f (vx (ns2 ! i)), vy := g (vy (ns2 ! i))\<rparr>)"
    by (simp add: phys_def)
  with assms(1) show ?thesis by (simp add: map_update)
qed

lemma sim_add_velocity:
  assumes "map phys ns1 = map phys ns2" and "i < length ns1"
  shows "map phys (add_velocity i fx fy ns1) = map phys (add_velocity i fx fy ns2)"
  unfolding add_velocity_def
  using sim_update[OF assms, where f = "\<lambda>v. v + fx" and g = "\<lambda>v. v + fy"] by simp

lemma sim_sub_velocity:
  assumes "map phys ns1 = map phys ns2" and "i < length ns1"
  shows "map phys (sub_velocity i fx fy ns1) = map phys (sub_velocity i fx fy ns2)"
  unfolding sub_velocity_def
  using sim_update[OF assms, where f = "\<lambda>v. v - fx" and g = "\<lambda>v. v - fy"] by simp

lemma sim_map:
  assumes "map phys ns1 = map phys ns2"
    and "\<And>a b. phys a = phys b \<Longrightarrow> phys (g a) = phys (g b)"
  shows "map phys (map g ns1) = map phys (map g ns2)"
  using assms(1)
proof (induction ns1 arbitrary: ns2)
  case Nil
  then show ?case by simp
next
  case (Cons n ns1)
  from Cons.prems obtain m ms where ns2: "ns2 = m # ms" by (cases ns2) auto
  from Cons.prems ns2 have hd: "phys n = phys m" and tl: "map phys ns1 = map phys ms"
    by simp_all
  have "phys (g n) = phys (g m)" using hd by (rule assms(2))
  moreover have "map phys (map g ns1) = map phys (map g ms)" using tl by (rule Cons.IH)
  ultimately show ?case by (simp add: ns2)
qed

lemma sim_repulse_pair:
  assumes sim: "map phys ns1 = map phys ns2" and i: "i < length ns1" and j: "j < length ns1"
  shows "map phys (repulse_pair i j ns1) = map phys (repulse_pair i j ns2)"
proof -
  have "phys (ns1 ! i) = phys (ns2 ! i)" and "phys (ns1 ! j) = phys (ns2 ! j)"
    by (rule sim_nth[OF sim i], rule sim_nth[OF sim j])
  then have eqs: "px (ns1 ! i) = px (ns2 ! i)" "py (ns1 ! i) = py (ns2 ! i)"
      "px (ns1 ! j) = px (ns2 ! j)" "py (ns1 ! j) = py (ns2 ! j)"
    by (simp_all add: phys_eq_iff)
  define dx where "dx = px (ns1 ! i) - px (ns1 ! j)"
  define dy where "dy = py (ns1 ! i) - py (ns1 ! j)"
  define dist where "dist = dist_or_1 dx dy"
  define force where "force = 1200 / (dist * dist)"
  define fx where "fx = (dx / dist) * force"
  define fy where "fy = (dy / dist) * force"
  have r1: "repulse_pair i j ns1 = sub_velocity j fx fy (add_velocity i fx fy ns1)"
    unfolding repulse_pair_def Let_def fx_def fy_def force_def dist_def dx_def dy_def
    by (rule refl)
  have r2: "repulse_pair i j ns2 = sub_velocity j fx fy (add_velocity i fx fy ns2)"
    unfolding repulse_pair_def Let_def fx_def fy_def force_def dist_def dx_def dy_def eqs
    by (rule refl)
  have "map phys (add_velocity i fx fy ns1) = map phys (add_velocity i fx fy ns2)"
    using sim i by (rule sim_add_velocity)
  moreover have "j < length (add_velocity i fx fy ns1)"
    using j by (simp add: length_add_velocity)
  ultimately show ?thesis unfolding r1 r2 by (rule sim_sub_velocity)
qed

lemma sim_fold_repulse:
  assumes "map phys ns1 = map phys ns2" and "i < length ns1" and "\<forall>j \<in> set js. j < length ns1"
  shows "map phys (fold (\<lambda>j acc. repulse_pair i j acc) js ns1)
       = map phys (fold (\<lambda>j acc. repulse_pair i j acc) js ns2)"
  using assms
proof (induction js arbitrary: ns1 ns2)
  case Nil
  then show ?case by simp
next
  case (Cons j js)
  have "map phys (repulse_pair i j ns1) = map phys (repulse_pair i j ns2)"
    using Cons.prems by (intro sim_repulse_pair) simp_all
  moreover have "i < length (repulse_pair i j ns1)" "\<forall>k \<in> set js. k < length (repulse_pair i j ns1)"
    using Cons.prems by (simp_all add: length_repulse_pair)
  ultimately show ?case using Cons.IH by simp
qed

lemma length_fold_repulse:
  "length (fold (\<lambda>j acc. repulse_pair i j acc) js ns) = length ns"
  by (induction js arbitrary: ns) (simp_all add: length_repulse_pair)

lemma sim_repulsion_gen:
  assumes "map phys ns1 = map phys ns2" and "\<forall>i \<in> set is. i < length ns1" and "m \<le> length ns1"
  shows "map phys (fold (\<lambda>i acc. fold (\<lambda>j acc'. repulse_pair i j acc') [Suc i ..< m] acc) is ns1)
       = map phys (fold (\<lambda>i acc. fold (\<lambda>j acc'. repulse_pair i j acc') [Suc i ..< m] acc) is ns2)"
  using assms
proof (induction "is" arbitrary: ns1 ns2)
  case Nil
  then show ?case by simp
next
  case (Cons i "is")
  let ?f = "\<lambda>ns. fold (\<lambda>j acc'. repulse_pair i j acc') [Suc i ..< m] ns"
  have "map phys (?f ns1) = map phys (?f ns2)"
    using Cons.prems by (intro sim_fold_repulse) auto
  moreover have "length (?f ns1) = length ns1" by (rule length_fold_repulse)
  ultimately show ?case using Cons.IH[of "?f ns1" "?f ns2"] Cons.prems by simp
qed

lemma sim_repulsion:
  assumes "map phys ns1 = map phys ns2"
  shows "map phys (repulsion ns1) = map phys (repulsion ns2)"
proof -
  have len: "length ns2 = length ns1" using sim_length[OF assms] by simp
  show ?thesis
    unfolding repulsion_def len using assms by (rule sim_repulsion_gen) simp_all
qed

lemma sim_attract_edge:
  assumes sim: "map phys ns1 = map phys ns2" and e: "ends e1 = ends e2"
  shows "map phys (attract_edge e1 ns1) = map phys (attract_edge e2 ns2)"
proof -
  have src: "source e1 = source e2" and tgt: "target e1 = target e2"
    using e by (simp_all add: ends_def)
  have ids: "map node_id ns1 = map node_id ns2" using sim by (rule sim_ids)
  have fs: "find_node (source e2) ns1 = find_node (source e2) ns2"
    and ft: "find_node (target e2) ns1 = find_node (target e2) ns2"
    by (rule find_node_ids[OF ids])+
  show ?thesis
  proof (cases "find_node (source e2) ns2")
    case None
    with fs src sim show ?thesis by (simp add: attract_edge_def)
  next
    case (Some s)
    note s = Some
    show ?thesis
    proof (cases "find_node (target e2) ns2")
      case None
      with s fs ft src tgt sim show ?thesis by (simp add: attract_edge_def)
    next
      case (Some t)
      have f1: "find_node (source e1) ns1 = Some s" "find_node (target e1) ns1 = Some t"
        using s Some fs ft src tgt by simp_all
      have sl: "s < length ns1" and tl: "t < length ns1"
        by (rule find_node_less[OF f1(1)], rule find_node_less[OF f1(2)])
      have "phys (ns1 ! s) = phys (ns2 ! s)" and "phys (ns1 ! t) = phys (ns2 ! t)"
        by (rule sim_nth[OF sim sl], rule sim_nth[OF sim tl])
      then have eqs: "px (ns1 ! s) = px (ns2 ! s)" "py (ns1 ! s) = py (ns2 ! s)"
          "px (ns1 ! t) = px (ns2 ! t)" "py (ns1 ! t) = py (ns2 ! t)"
        by (simp_all add: phys_eq_iff)
      define dx where "dx = px (ns1 ! t) - px (ns1 ! s)"
      define dy where "dy = py (ns1 ! t) - py (ns1 ! s)"
      define dist where "dist = dist_or_1 dx dy"
      define force where "force = (dist - 120) * 0.04"
      define fx where "fx = (dx / dist) * force"
      define fy where "fy = (dy / dist) * force"
      have r1: "attract_edge e1 ns1 = sub_velocity t fx fy (add_velocity s fx fy ns1)"
        unfolding attract_edge_def Let_def f1 option.case
          fx_def fy_def force_def dist_def dx_def dy_def
        by (rule refl)
      have r2: "attract_edge e2 ns2 = sub_velocity t fx fy (add_velocity s fx fy ns2)"
        unfolding attract_edge_def Let_def s Some option.case
          fx_def fy_def force_def dist_def dx_def dy_def eqs
        by (rule refl)
      have "map phys (add_velocity s fx fy ns1) = map phys (add_velocity s fx fy ns2)"
        using sim sl by (rule sim_add_velocity)
      moreover have "t < length (add_velocity s fx fy ns1)"
        using tl by (simp add: length_add_velocity)
      ultimately show ?thesis unfolding r1 r2 by (rule sim_sub_velocity)
    qed
  qed
qed

lemma sim_attraction:
  assumes "map phys ns1 = map phys ns2" and "map ends es1 = map ends es2"
  shows "map phys (attraction es1 ns1) = map phys (attraction es2 ns2)"
  using assms unfolding attraction_def
proof (induction es1 arbitrary: es2 ns1 ns2)
  case Nil
  then show ?case by simp
next
  case (Cons e es1)
  from Cons.prems(2) obtain e' es' where es2: "es2 = e' # es'" by (cases es2) auto
  from Cons.prems(2) es2 have hd: "ends e = ends e'" and tl: "map ends es1 = map ends es'"
    by simp_all
  have "map phys (attract_edge e ns1) = map phys (attract_edge e' ns2)"
    using Cons.prems(1) hd by (rule sim_attract_edge)
  then have "map phys (fold attract_edge es1 (attract_edge e ns1))
      = map phys (fold attract_edge es' (attract_edge e' ns2))"
    using tl by (rule Cons.IH)
  then show ?case by (simp add: es2)
qed

lemma phys_gravity_node: "phys a = phys b \<Longrightarrow> phys (gravity_node a) = phys (gravity_node b)"
  by (simp add: phys_def gravity_node_def)

lemma phys_dampen_clamp_node:
  "phys a = phys b \<Longrightarrow> phys (dampen_clamp_node a) = phys (dampen_clamp_node b)"
  by (simp add: phys_def dampen_clamp_node_def Let_def)

lemma sim_gravity:
  "map phys ns1 = map phys ns2 \<Longrightarrow> map phys (gravity ns1) = map phys (gravity ns2)"
  unfolding gravity_def
  by (erule sim_map) (rule phys_gravity_node)

lemma sim_dampen_clamp:
  "map phys ns1 = map phys ns2 \<Longrightarrow> map phys (dampen_clamp ns1) = map phys (dampen_clamp ns2)"
  unfolding dampen_clamp_def
  by (erule sim_map) (rule phys_dampen_clamp_node)

text \<open>
  C8: the ids, positions and velocities after a tick are a function of the ids, positions
  and velocities before it and of the ends of the edges, in their order. Two runs from
  states equal in these give equal positions and velocities; nothing else is read.
\<close>

theorem tick_deterministic:
  assumes "map phys ns1 = map phys ns2" and "map ends es1 = map ends es2"
  shows "map phys (tick es1 ns1) = map phys (tick es2 ns2)"
  unfolding tick_def
  using assms by (intro sim_dampen_clamp sim_gravity sim_attraction sim_repulsion)

theorem tick_deterministic_witness:
  "map phys [mk_node ''D0'' 100 100, mk_node ''A1'' 300 100]
     = map phys [(mk_node ''D0'' 100 100)\<lparr>risk := 9/10, label := ''fp''\<rparr>,
         (mk_node ''A1'' 300 100)\<lparr>node_type := device\<rparr>]
   \<and> map ends [mk_edge ''D0'' ''A1'' 1] = map ends [mk_edge ''D0'' ''A1'' 2]
   \<and> map phys (tick [mk_edge ''D0'' ''A1'' 1] [mk_node ''D0'' 100 100, mk_node ''A1'' 300 100])
     = map phys (tick [mk_edge ''D0'' ''A1'' 2]
         [(mk_node ''D0'' 100 100)\<lparr>risk := 9/10, label := ''fp''\<rparr>,
          (mk_node ''A1'' 300 100)\<lparr>node_type := device\<rparr>])"
  using tick_deterministic[of "[mk_node ''D0'' 100 100, mk_node ''A1'' 300 100]"
      "[(mk_node ''D0'' 100 100)\<lparr>risk := 9/10, label := ''fp''\<rparr>,
        (mk_node ''A1'' 300 100)\<lparr>node_type := device\<rparr>]"
      "[mk_edge ''D0'' ''A1'' 1]" "[mk_edge ''D0'' ''A1'' 2]"]
  by (simp add: phys_def ends_def mk_node_def mk_edge_def)

section \<open>Selection toggle\<close>

text \<open>
  C9: a click on a node that is not the selected one selects it, and a second click on it
  clears the selection; then no node is dimmed, the \<^verbatim>\<open>dim\<close> expression holds of no edge,
  and no line is drawn dimmed.
\<close>

theorem select_then_deselect:
  assumes "\<not> isSelected sel n"
  shows "onClick sel n = Some n \<and> onClick (onClick sel n) n = None
    \<and> filter (dimmed (onClick (onClick sel n) n) es) ns = []
    \<and> filter (dim_expr (onClick (onClick sel n) n) es) es = []
    \<and> filter (\<lambda>e. dim_edge ns (onClick (onClick sel n) n) es e = Some True) es = []"
  using assms by (simp add: onClick_def isSelected_def dimmed_def dim_expr_def dim_edge_def)

theorem select_then_deselect_witness:
  "\<not> isSelected None (mk_node ''N'' 0 0)
   \<and> onClick (onClick None (mk_node ''N'' 0 0)) (mk_node ''N'' 0 0) = None
   \<and> filter (dimmed (onClick (onClick None (mk_node ''N'' 0 0)) (mk_node ''N'' 0 0))
        [mk_edge ''N'' ''A'' 1]) [mk_node ''N'' 0 0, mk_node ''A'' 1 1, mk_node ''B'' 2 2] = []"
  using select_then_deselect[of None "mk_node ''N'' 0 0" "[mk_edge ''N'' ''A'' 1]"
      "[mk_node ''N'' 0 0, mk_node ''A'' 1 1, mk_node ''B'' 2 2]"]
  by (simp add: isSelected_def onClick_def dimmed_def)

section \<open>Cancellation\<close>

lemma frame_callbacks_mount: "frame_callbacks (mount initNodes edges h) = [h]"
  by (simp add: mount_def requestAnimationFrame_tick_def)

lemma frame_runs_tick:
  "frame_callbacks v = [h] \<Longrightarrow> effect (step v Frame) = tick_session (effect v)"
  by (simp add: tick_callback_def requestAnimationFrame_tick_def)

lemma scheduled_mount: "scheduled (mount initNodes edges h)"
  by (simp add: scheduled_def mount_def requestAnimationFrame_tick_def)

lemma scheduled_step: "scheduled v \<Longrightarrow> scheduled (step v ev)"
  by (cases ev)
    (auto simp: scheduled_def tick_callback_def requestAnimationFrame_tick_def
      cancelAnimationFrame_animRef_def)

lemma scheduled_run: "scheduled v \<Longrightarrow> scheduled (foldl step v evs)"
  by (induction evs arbitrary: v) (simp_all add: scheduled_step)

lemma cancelled_step: "cancelled v \<Longrightarrow> step v ev = v"
  by (cases ev) (simp_all add: cancelled_def cancelAnimationFrame_animRef_def)

lemma cancelled_run: "cancelled v \<Longrightarrow> foldl step v evs = v"
  by (induction evs) (simp_all add: cancelled_step)

lemma cancel_cancels:
  "scheduled v \<Longrightarrow> c = Unmount \<or> c = Timeout \<Longrightarrow> cancelled (step v c)"
  by (auto simp: scheduled_def cancelled_def cancelAnimationFrame_animRef_def
      split: if_splits)

lemma cancel_keeps:
  "c = Unmount \<or> c = Timeout \<Longrightarrow> effect (step v c) = effect v \<and> nodes (step v c) = nodes v"
  by (auto simp: cancelAnimationFrame_animRef_def)

text \<open>
  C10: let a mounted view go through any events, then be cancelled by the timeout or by
  the unmount. Whatever events follow, frames included, the view stays as the cancellation
  left it: no tick runs, and the nodes of the closure and the nodes drawn are those at the
  moment of cancellation.
\<close>

theorem cancel_stops_simulation:
  assumes "c = Unmount \<or> c = Timeout"
  shows "foldl step (step (foldl step (mount initNodes edges h) evs) c) evs'
           = step (foldl step (mount initNodes edges h) evs) c
    \<and> localNodes (effect (foldl step (step (foldl step (mount initNodes edges h) evs) c) evs'))
           = localNodes (effect (foldl step (mount initNodes edges h) evs))
    \<and> nodes (foldl step (step (foldl step (mount initNodes edges h) evs) c) evs')
           = nodes (foldl step (mount initNodes edges h) evs)"
proof -
  let ?v = "foldl step (mount initNodes edges h) evs"
  have "scheduled ?v" by (intro scheduled_run scheduled_mount)
  then have "cancelled (step ?v c)" using assms by (rule cancel_cancels)
  then have "foldl step (step ?v c) evs' = step ?v c" by (rule cancelled_run)
  then show ?thesis using cancel_keeps[OF assms, of ?v] by simp
qed

text \<open>
  One frame, the timeout, one more frame: the nodes drawn are those of the first tick.
  Without the timeout the second frame runs a second tick.
\<close>

lemma two_frames_two_ticks:
  "nodes (foldl step (mount [mk_node ''D0'' 100 100, mk_node ''A1'' 300 100] [] 1)
      [Frame, Frame])
   = tick [] (tick [] [mk_node ''D0'' 100 100, mk_node ''A1'' 300 100])"
  by (simp add: mount_def requestAnimationFrame_tick_def tick_callback_def tick_session_def
      init_session_def mk_node_def)

theorem cancel_stops_simulation_witness:
  "nodes (foldl step (step (foldl step
      (mount [mk_node ''D0'' 100 100, mk_node ''A1'' 300 100] [] 1) [Frame]) Timeout) [Frame])
   = tick [] [mk_node ''D0'' 100 100, mk_node ''A1'' 300 100]"
  using cancel_stops_simulation[of Timeout "[mk_node ''D0'' 100 100, mk_node ''A1'' 300 100]"
      "[]" 1 "[Frame]" "[Frame]"]
  by (simp add: mount_def requestAnimationFrame_tick_def tick_callback_def
      cancelAnimationFrame_animRef_def tick_session_def init_session_def mk_node_def)

end
